theory Spec2Isabelle
  imports Main
begin

section \<open>The paging logger (logging module, class PagingLogger)\<close>

text \<open>
  The logger is synchronous: every method runs to completion before the next call.
  Its effects on the outside are file-system calls of Node's \<^verbatim>\<open>fs\<close> module and the
  \<^verbatim>\<open>pageComplete\<close> events handed to its listeners. Both are kept in a record
  \<open>world\<close> that every operation takes and returns. A call that throws is the
  left summand of the result.
\<close>

subsection \<open>Values of the environment\<close>

text \<open>
  \<^verbatim>\<open>cm.ILogMetadata\<close>: the job information is opaque here (its declaration is in the
  common module); \<^verbatim>\<open>pagesId\<close> and \<^verbatim>\<open>logPath\<close> are undefined until
  \<^verbatim>\<open>create\<close> assigns them.
\<close>

record ILogMetadata =
  jobInfo :: string
  recordId :: string
  meta_pagesId :: "string option"
  meta_logPath :: "string option"

text \<open>\<^verbatim>\<open>cm.ILogPageInfo\<close>, the payload of a \<^verbatim>\<open>pageComplete\<close> event.\<close>

record ILogPageInfo =
  logInfo :: ILogMetadata
  pagePath :: "string option"
  pageNumber :: nat

text \<open>
  What a file holds: the chunks written to it, in order. The metadata sidecar is one
  chunk, the document \<^verbatim>\<open>JSON.stringify(metadata, null, 2)\<close>, kept as the metadata
  value it renders; every \<^verbatim>\<open>fs.writeSync\<close> appends one text chunk.
\<close>

datatype chunk = Doc ILogMetadata | Text string

datatype fs_error =
    EBADF string nat  \<comment> \<open>the call named, on a descriptor that is not open\<close>
  | ERR_INVALID_ARG string  \<comment> \<open>the call named, on \<^verbatim>\<open>undefined\<close> for a descriptor\<close>

record world =
  fds :: "(nat \<times> string) list"  \<comment> \<open>the open descriptors and the path each was opened on\<close>
  files :: "string \<Rightarrow> chunk list option"
  dirs :: "string list"  \<comment> \<open>folders made by \<^verbatim>\<open>shell.mkdir\<close>\<close>
  emitted :: "ILogPageInfo list"  \<comment> \<open>\<^verbatim>\<open>pageComplete\<close> events, oldest first\<close>

text \<open>
  The operating system hands out the lowest descriptor that is not open. Among the
  numbers \<open>0 .. length used\<close> one is always free.
\<close>

definition lowest_free :: "nat list \<Rightarrow> nat" where
  "lowest_free used =
     (case filter (\<lambda>n. n \<notin> set used) [0 ..< Suc (length used)] of
        n # _ \<Rightarrow> n
      | [] \<Rightarrow> Suc (length used))"

text \<open>
  \<^verbatim>\<open>fs.openSync(path, 'a')\<close>: append mode, the file is created when it does not
  exist. Failures of the disk itself (no space, no permission) are outside this model.
\<close>

definition openSync :: "string \<Rightarrow> world \<Rightarrow> nat \<times> world" where
  "openSync p w =
     (let d = lowest_free (map fst (fds w)) in
      (d, w\<lparr>fds := fds w @ [(d, p)],
             files := (case files w p of None \<Rightarrow> (files w)(p \<mapsto> []) | Some _ \<Rightarrow> files w)\<rparr>))"

definition writeSync :: "nat \<Rightarrow> string \<Rightarrow> world \<Rightarrow> fs_error + world" where
  "writeSync d line w =
     (case map_of (fds w) d of
        None \<Rightarrow> Inl (EBADF ''write'' d)
      | Some p \<Rightarrow>
          Inr (w\<lparr>files := (files w)(p \<mapsto>
                 (case files w p of None \<Rightarrow> [] | Some cs \<Rightarrow> cs) @ [Text line])\<rparr>))"

definition closeSync :: "nat \<Rightarrow> world \<Rightarrow> fs_error + world" where
  "closeSync d w =
     (case map_of (fds w) d of
        None \<Rightarrow> Inl (EBADF ''close'' d)
      | Some _ \<Rightarrow> Inr (w\<lparr>fds := filter (\<lambda>e. fst e \<noteq> d) (fds w)\<rparr>))"

definition writeFileSync :: "string \<Rightarrow> chunk \<Rightarrow> world \<Rightarrow> world" where
  "writeFileSync p c w = w\<lparr>files := (files w)(p \<mapsto> [c])\<rparr>"

text \<open>\<^verbatim>\<open>path.join\<close> on two segments that need no normalising.\<close>

definition path_join :: "string \<Rightarrow> string \<Rightarrow> string" where
  "path_join a b = a @ ''/'' @ b"

text \<open>The decimal digits of a number, as string concatenation renders it.\<close>

fun Number_toString :: "nat \<Rightarrow> string" where
  "Number_toString n =
     (if n < 10 then [''0123456789'' ! n]
      else Number_toString (n div 10) @ [''0123456789'' ! (n mod 10)])"

declare Number_toString.simps [simp del]

subsection \<open>The class\<close>

definition PAGE_SIZE :: nat where
  "PAGE_SIZE = 25"

text \<open>
  Modelled from the spec: the enum \<^verbatim>\<open>cm.DiagnosticLevel\<close> is declared in the common
  module, which is not among the sources. The spec orders it
  Error < Warning < Status < Info < Verbose; the numbers below are that order.
\<close>

datatype DiagnosticLevel = Error | Warning | Status | Info | Verbose

fun level_num :: "DiagnosticLevel \<Rightarrow> nat" where
  "level_num Error = 1"
| "level_num Warning = 2"
| "level_num Status = 3"
| "level_num Info = 4"
| "level_num Verbose = 5"

text \<open>
  The fields of the class. \<open>fd\<close> is the field \<^verbatim>\<open>_fd\<close>, \<open>None\<close> while it is
  undefined; \<open>created\<close> is undefined until first assigned; the field
  \<^verbatim>\<open>stream\<close> stays \<^verbatim>\<open>null\<close> and is left out.
\<close>

record PagingLogger =
  logger_level :: "DiagnosticLevel option"
  metadata :: ILogMetadata
  created :: "bool option"
  pagesId :: string
  logPath :: string
  pageFolder :: string
  pageFilePath :: "string option"
  pageCount :: nat
  lineCount :: nat
  fd :: "nat option"

text \<open>The truth value JavaScript gives \<^verbatim>\<open>this._fd\<close>: undefined and 0 are false.\<close>

definition truthy_fd :: "nat option \<Rightarrow> bool" where
  "truthy_fd d = (case d of None \<Rightarrow> False | Some n \<Rightarrow> n \<noteq> 0)"

text \<open>
  The constructor. \<open>uuid\<close> is the value of \<^verbatim>\<open>uuid.v1()\<close> and \<open>logName\<close> the
  name built from the date and the process id. It makes the pages folder; the mode
  that \<^verbatim>\<open>shell.chmod\<close> gives the folder is not kept.
\<close>

definition PagingLogger_new ::
  "string \<Rightarrow> ILogMetadata \<Rightarrow> string \<Rightarrow> string \<Rightarrow> world \<Rightarrow> PagingLogger \<times> world" where
  "PagingLogger_new logFolder md uuid logName w =
     (\<lparr>logger_level = None, metadata = md, created = None, pagesId = uuid,
       logPath = path_join logFolder logName,
       pageFolder = path_join logFolder ''pages'',
       pageFilePath = None, pageCount = 0, lineCount = 0, fd = None\<rparr>,
      w\<lparr>dirs := dirs w @ [path_join logFolder ''pages'']\<rparr>)"

definition endPage :: "PagingLogger \<times> world \<Rightarrow> fs_error + PagingLogger \<times> world" where
  "endPage s =
     (case s of (lg, w) \<Rightarrow>
        (case fd lg of
           Some d \<Rightarrow>
             if truthy_fd (fd lg) then
               (case closeSync d w of
                  Inl e \<Rightarrow> Inl e
                | Inr w' \<Rightarrow>
                    Inr (lg\<lparr>created := Some False\<rparr>,
                         w'\<lparr>emitted := emitted w' @
                            [\<lparr>logInfo = metadata lg, pagePath = pageFilePath lg,
                              pageNumber = pageCount lg\<rparr>]\<rparr>))
             else Inr (lg, w)
         | None \<Rightarrow> Inr (lg, w)))"

definition newPage :: "PagingLogger \<times> world \<Rightarrow> fs_error + PagingLogger \<times> world" where
  "newPage s =
     (case endPage s of
        Inl e \<Rightarrow> Inl e
      | Inr (lg, w) \<Rightarrow>
          (let n = Suc (pageCount lg);
               p = path_join (pageFolder lg) (pagesId lg @ ''_'' @ Number_toString n @ ''.page'');
               (d, w') = openSync p w
           in Inr (lg\<lparr>pageCount := n, pageFilePath := Some p, fd := Some d,
                      created := Some True, lineCount := 0\<rparr>, w')))"

definition create :: "PagingLogger \<times> world \<Rightarrow> fs_error + PagingLogger \<times> world" where
  "create s =
     (case s of (lg, w) \<Rightarrow>
        (let md = (metadata lg)\<lparr>meta_pagesId := Some (pagesId lg),
                                 meta_logPath := Some (logPath lg)\<rparr>;
             w1 = writeFileSync (logPath lg) (Doc md) w
         in case newPage (lg\<lparr>metadata := md\<rparr>, w1) of
              Inl e \<Rightarrow> Inl e
            | Inr (lg', w') \<Rightarrow> Inr (lg'\<lparr>created := Some True\<rparr>, w')))"

definition PagingLogger_write :: "string \<Rightarrow> PagingLogger \<times> world \<Rightarrow> fs_error + PagingLogger \<times> world" where
  "PagingLogger_write line s =
     (case (if \<not> truthy_fd (fd (fst s)) then create s else Inr s) of
        Inl e \<Rightarrow> Inl e
      | Inr (lg, w) \<Rightarrow>
          (case fd lg of
             None \<Rightarrow> Inl (ERR_INVALID_ARG ''write'')
           | Some d \<Rightarrow>
               (case writeSync d line w of
                  Inl e \<Rightarrow> Inl e
                | Inr w' \<Rightarrow>
                    (let lg' = lg\<lparr>lineCount := Suc (lineCount lg)\<rparr>
                     in if lineCount lg' \<ge> PAGE_SIZE then newPage (lg', w')
                        else Inr (lg', w')))))"

definition PagingLogger_writeError :: "string \<Rightarrow> PagingLogger \<times> world \<Rightarrow> fs_error + PagingLogger \<times> world" where
  "PagingLogger_writeError line s = PagingLogger_write line s"

definition PagingLogger_end :: "PagingLogger \<times> world \<Rightarrow> fs_error + PagingLogger \<times> world" where
  "PagingLogger_end s = endPage s"

text \<open>A run of writes, one line after the other; the first throw ends the run.\<close>

fun writes :: "string list \<Rightarrow> PagingLogger \<times> world \<Rightarrow> fs_error + PagingLogger \<times> world" where
  "writes [] s = Inr s"
| "writes (line # ls) s = (case PagingLogger_write line s of Inl e \<Rightarrow> Inl e | Inr s' \<Rightarrow> writes ls s')"

text \<open>A process starts with its three standard streams open and, here, an empty disk.\<close>

definition world0 :: world where
  "world0 = \<lparr>fds = [(0, ''stdin''), (1, ''stdout''), (2, ''stderr'')],
             files = Map.empty, dirs = [], emitted = []\<rparr>"

text \<open>Readings of the world: whether a descriptor is open, and the sequence numbers announced.\<close>

definition is_open :: "nat \<Rightarrow> world \<Rightarrow> bool" where
  "is_open d w = (d \<in> set (map fst (fds w)))"

definition page_numbers :: "world \<Rightarrow> nat list" where
  "page_numbers w = map pageNumber (emitted w)"

text \<open>The lines a file holds, \<open>None\<close> when there is no such file.\<close>

definition line_count :: "world \<Rightarrow> string \<Rightarrow> nat option" where
  "line_count w p = map_option length (files w p)"

definition writes_then_end :: "string list \<Rightarrow> PagingLogger \<times> world \<Rightarrow> fs_error + PagingLogger \<times> world" where
  "writes_then_end ls s = (case writes ls s of Inl e \<Rightarrow> Inl e | Inr s' \<Rightarrow> PagingLogger_end s')"

text \<open>
  A logger with a page open: its descriptor is set, is not 0 and is open; standard
  input is open as well, so descriptor 0 is never handed out; the page is not full.
\<close>

definition active :: "PagingLogger \<times> world \<Rightarrow> bool" where
  "active s =
     (case fd (fst s) of
        None \<Rightarrow> False
      | Some d \<Rightarrow> d \<noteq> 0 \<and> is_open d (snd s) \<and> is_open 0 (snd s) \<and> lineCount (fst s) < PAGE_SIZE)"

section \<open>The diagnostic context (context module, class Context)\<close>

subsection \<open>JavaScript values and the runtime\<close>

text \<open>
  The logging methods are declared on strings, but a JavaScript caller can hand them
  any value, and \<^verbatim>\<open>_write\<close> tests for that. \<open>JCyclic\<close> stands for a property
  whose value is an object that encloses it: \<^verbatim>\<open>var o = {}; o.self = o\<close> is
  \<open>JObject [(''self'', JCyclic)]\<close>.
\<close>

datatype jsval =
    JUndefined
  | JNull
  | JBoolean bool
  | JNumber int
  | JString string
  | JArray "jsval list"
  | JObject "(string \<times> jsval) list"
  | JCyclic

fun circular :: "jsval \<Rightarrow> bool"
  and circular_list :: "jsval list \<Rightarrow> bool"
  and circular_props :: "(string \<times> jsval) list \<Rightarrow> bool" where
  "circular JCyclic = True"
| "circular (JArray vs) = circular_list vs"
| "circular (JObject ps) = circular_props ps"
| "circular JUndefined = False"
| "circular JNull = False"
| "circular (JBoolean _) = False"
| "circular (JNumber _) = False"
| "circular (JString _) = False"
| "circular_list [] = False"
| "circular_list (v # vs) = (circular v \<or> circular_list vs)"
| "circular_props [] = False"
| "circular_props (p # ps) = (circular (snd p) \<or> circular_props ps)"

datatype js_error = TypeError string

text \<open>
  An argument of a \<^verbatim>\<open>console.error\<close> call. \<open>CJson v\<close> is the text
  \<^verbatim>\<open>JSON.stringify(v, null, 2)\<close>; its layout is not needed here.
\<close>

datatype console_arg = CString string | CJson jsval | CUndefined | CNull

text \<open>
  \<^verbatim>\<open>JSON.stringify\<close> returns undefined for undefined and throws a TypeError on a
  structure that contains itself.
\<close>

definition JSON_stringify :: "jsval \<Rightarrow> js_error + console_arg" where
  "JSON_stringify v =
     (if circular v then Inl (TypeError ''Converting circular structure to JSON'')
      else if v = JUndefined then Inr CUndefined
      else Inr (CJson v))"

text \<open>
  What the code reads from its host: \<^verbatim>\<open>os.EOL\<close>, and the text
  \<^verbatim>\<open>new Date().toISOString()\<close> of each date it makes, by the number of dates made
  before.
\<close>

record runtime =
  EOL :: string
  toISOString :: "nat \<Rightarrow> string"

text \<open>
  \<^verbatim>\<open>String.prototype.split\<close> on a separator string: the pieces between the
  occurrences of the separator, found from the left; an empty separator splits into
  characters.
\<close>

function split_from :: "string \<Rightarrow> string \<Rightarrow> string \<Rightarrow> string list" where
  "split_from sep piece [] = [piece]"
| "split_from sep piece (c # cs) =
     (if sep \<noteq> [] \<and> take (length sep) (c # cs) = sep
      then piece # split_from sep [] (drop (length sep) (c # cs))
      else split_from sep (piece @ [c]) cs)"
  by pat_completeness auto
termination
  by (relation "measure (\<lambda>(sep, piece, s). length s)") auto

definition String_split :: "string \<Rightarrow> string \<Rightarrow> string list" where
  "String_split sep s = (if sep = [] then map (\<lambda>c. [c]) s else split_from sep [] s)"

text \<open>\<^verbatim>\<open>replace(/(\r\n|\n|\r)/gm, '')\<close>: every carriage return and line feed goes.\<close>

definition strip_line_ends :: "string \<Rightarrow> string" where
  "strip_line_ends l = filter (\<lambda>c. c \<noteq> CHR 0x0D \<and> c \<noteq> CHR 0x0A) l"

subsection \<open>Writers\<close>

datatype writer_method = Write | WriteError

text \<open>
  A writer as the context sees it, through \<^verbatim>\<open>cm.IDiagnosticWriter\<close>: its level, and
  here the calls made of it so far. A writer of this model never throws.
\<close>

record IDiagnosticWriter =
  level :: DiagnosticLevel
  received :: "(writer_method \<times> string) list"
  ended :: nat

subsection \<open>The class\<close>

text \<open>
  \<open>messages\<close> are the \<^verbatim>\<open>message\<close> events emitted, \<open>console\<close> the calls of
  \<^verbatim>\<open>console.error\<close>, \<open>dates\<close> the number of dates made so far.
\<close>

record Context =
  writers :: "IDiagnosticWriter list"
  hasErrors :: bool
  messages :: "string list"
  console :: "console_arg list list"
  dates :: nat

definition Context_new :: "IDiagnosticWriter list \<Rightarrow> Context" where
  "Context_new ws = \<lparr>writers = ws, hasErrors = False, messages = [], console = [], dates = 0\<rparr>"

definition Context_output :: "string \<Rightarrow> Context \<Rightarrow> Context" where
  "Context_output line ctx =
     ctx\<lparr>writers := map (\<lambda>wr. wr\<lparr>received := received wr @ [(Write, line)]\<rparr>) (writers ctx)\<rparr>"

text \<open>The body of the inner \<^verbatim>\<open>forEach\<close> of \<^verbatim>\<open>_write\<close>, for one writer.\<close>

definition deliver :: "DiagnosticLevel \<Rightarrow> string \<Rightarrow> IDiagnosticWriter \<Rightarrow> IDiagnosticWriter" where
  "deliver lvl logLine wr =
     (if level_num (level wr) \<ge> level_num lvl then
        (if lvl = Error then wr\<lparr>received := received wr @ [(WriteError, logLine)]\<rparr>
         else wr\<lparr>received := received wr @ [(Write, logLine)]\<rparr>)
      else wr)"

definition tag_prefix :: "string option \<Rightarrow> string" where
  "tag_prefix tag = (case tag of None \<Rightarrow> [] | Some t \<Rightarrow> if t = [] then [] else ''['' @ t @ ''] '')"

definition log_line :: "runtime \<Rightarrow> string option \<Rightarrow> nat \<Rightarrow> string \<Rightarrow> string" where
  "log_line rt tag k line =
     tag_prefix tag @ (toISOString rt k @ '': '') @ strip_line_ends line @ EOL rt"

text \<open>The body of the loop over the lines of \<^verbatim>\<open>_write\<close>, for one line.\<close>

definition write_line :: "runtime \<Rightarrow> DiagnosticLevel \<Rightarrow> string option \<Rightarrow> string \<Rightarrow> Context \<Rightarrow> Context" where
  "write_line rt lvl tag line ctx =
     ctx\<lparr>dates := Suc (dates ctx),
         messages := messages ctx @ [tag_prefix tag @ strip_line_ends line],
         writers := map (deliver lvl (log_line rt tag (dates ctx) line)) (writers ctx)\<rparr>"

text \<open>
  \<^verbatim>\<open>_write\<close>. The result is the context after the call and the exception the call
  threw, if it threw.
\<close>

definition Context_write ::
  "runtime \<Rightarrow> DiagnosticLevel \<Rightarrow> string option \<Rightarrow> jsval \<Rightarrow> Context \<Rightarrow> js_error option \<times> Context" where
  "Context_write rt lvl tag message ctx =
     (case message of
        JString s \<Rightarrow> (None, fold (write_line rt lvl tag) (String_split (EOL rt) s) ctx)
      | _ \<Rightarrow>
          (let c1 = ctx\<lparr>console := console ctx @
                      [[CString (''non-string write: '' @ Number_toString (level_num lvl)),
                        (case tag of None \<Rightarrow> CNull | Some t \<Rightarrow> CString t)]]\<rparr>
           in case JSON_stringify message of
                Inl e \<Rightarrow> (Some e, c1)
              | Inr j \<Rightarrow> (None, c1\<lparr>console := console c1 @ [[j]]\<rparr>)))"

definition Context_error :: "runtime \<Rightarrow> jsval \<Rightarrow> Context \<Rightarrow> js_error option \<times> Context" where
  "Context_error rt message ctx = Context_write rt Error (Some ''Error'') message (ctx\<lparr>hasErrors := True\<rparr>)"

definition Context_warning :: "runtime \<Rightarrow> jsval \<Rightarrow> Context \<Rightarrow> js_error option \<times> Context" where
  "Context_warning rt message ctx = Context_write rt Warning (Some ''Warning'') message ctx"

definition Context_info :: "runtime \<Rightarrow> jsval \<Rightarrow> Context \<Rightarrow> js_error option \<times> Context" where
  "Context_info rt message ctx = Context_write rt Info None message ctx"

definition Context_verbose :: "runtime \<Rightarrow> jsval \<Rightarrow> Context \<Rightarrow> js_error option \<times> Context" where
  "Context_verbose rt message ctx = Context_write rt Verbose None message ctx"

definition Context_status :: "runtime \<Rightarrow> jsval \<Rightarrow> Context \<Rightarrow> js_error option \<times> Context" where
  "Context_status rt message ctx = Context_write rt Status None message ctx"

text \<open>
  The \<^verbatim>\<open>forEach\<close> of \<^verbatim>\<open>heading\<close> and \<^verbatim>\<open>section\<close>: one turn for each writer,
  in order, and in each turn whose writer is at Status or above a call of
  \<^verbatim>\<open>_write\<close> with the decorated text. The levels are read from the writers; no
  call changes them. A throw ends the loop.
\<close>

fun forEach_banner ::
  "runtime \<Rightarrow> string \<Rightarrow> DiagnosticLevel list \<Rightarrow> Context \<Rightarrow> js_error option \<times> Context" where
  "forEach_banner rt banner [] ctx = (None, ctx)"
| "forEach_banner rt banner (l # ls) ctx =
     (if level_num l \<ge> level_num Status then
        (case Context_write rt Info None (JString banner) ctx of
           (Some e, ctx') \<Rightarrow> (Some e, ctx')
         | (None, ctx') \<Rightarrow> forEach_banner rt banner ls ctx')
      else forEach_banner rt banner ls ctx)"

definition delim :: "runtime \<Rightarrow> string" where
  "delim rt = replicate 70 (CHR ''-'') @ EOL rt"

text \<open>
  \<^verbatim>\<open>heading\<close> and \<^verbatim>\<open>section\<close> build their text by concatenation, which makes
  a string of any argument; they are modelled on strings.
\<close>

definition Context_heading :: "runtime \<Rightarrow> string \<Rightarrow> Context \<Rightarrow> js_error option \<times> Context" where
  "Context_heading rt message ctx =
     forEach_banner rt (delim rt @ message @ delim rt) (map level (writers ctx)) ctx"

definition Context_section :: "runtime \<Rightarrow> string \<Rightarrow> Context \<Rightarrow> js_error option \<times> Context" where
  "Context_section rt message ctx =
     forEach_banner rt ('' '' @ EOL rt @ ''+++++++'' @ message @ '' '' @ EOL rt)
       (map level (writers ctx)) ctx"

definition Context_end :: "Context \<Rightarrow> Context" where
  "Context_end ctx = ctx\<lparr>writers := map (\<lambda>wr. wr\<lparr>ended := Suc (ended wr)\<rparr>) (writers ctx)\<rparr>"

text \<open>
  The public methods as data, and a caller that makes a list of calls in order and
  goes on after a call that threw.
\<close>

datatype call =
    Output string
  | LogError jsval
  | LogWarning jsval
  | LogInfo jsval
  | LogVerbose jsval
  | LogStatus jsval
  | Heading string
  | Section string
  | End

fun do_call :: "runtime \<Rightarrow> call \<Rightarrow> Context \<Rightarrow> js_error option \<times> Context" where
  "do_call rt (Output line) ctx = (None, Context_output line ctx)"
| "do_call rt (LogError m) ctx = Context_error rt m ctx"
| "do_call rt (LogWarning m) ctx = Context_warning rt m ctx"
| "do_call rt (LogInfo m) ctx = Context_info rt m ctx"
| "do_call rt (LogVerbose m) ctx = Context_verbose rt m ctx"
| "do_call rt (LogStatus m) ctx = Context_status rt m ctx"
| "do_call rt (Heading m) ctx = Context_heading rt m ctx"
| "do_call rt (Section m) ctx = Context_section rt m ctx"
| "do_call rt End ctx = (None, Context_end ctx)"

fun do_calls :: "runtime \<Rightarrow> call list \<Rightarrow> Context \<Rightarrow> Context" where
  "do_calls rt [] ctx = ctx"
| "do_calls rt (c # cs) ctx = do_calls rt cs (snd (do_call rt c ctx))"

section \<open>The job context (context module, class JobContext)\<close>

text \<open>
  Modelled from the spec: the enums \<^verbatim>\<open>ifm.TaskResult\<close> and
  \<^verbatim>\<open>ifm.TimelineRecordState\<close> are declared in the interfaces module, which is not
  among the sources. The code names the result Failed and the states Pending,
  InProgress and Completed; the other results are the ones a task can report.
\<close>

datatype TaskResult = Succeeded | SucceededWithIssues | Failed | Cancelled | Skipped | Abandoned

datatype TimelineRecordState = Pending | InProgress | Completed

text \<open>The fields of the job message and of the configuration that the methods read.\<close>

record JobRequestMessage =
  jobId :: string
  jobName :: string
  requestId :: nat
  lockToken :: string

record TaskAgentJobRequest =
  request_requestId :: nat
  request_finishTime :: nat
  request_result :: TaskResult

record JobContext =
  job :: JobRequestMessage
  poolId :: nat
  agentName :: string

text \<open>
  What happens at the boundary of a job context, in order: the calls it makes of its
  feedback channel, the lines it prints with \<^verbatim>\<open>console.log\<close>, the moments the
  channel calls back into it, and the calls of the callback given to
  \<^verbatim>\<open>finishJob\<close>. An error is the message of an Error object; \<open>None\<close> is no
  error. Times are numbers.
\<close>

datatype event =
    SetCurrentOperation string string
  | SetName string string
  | SetStartTime string nat
  | SetFinishTime string nat
  | SetState string TimelineRecordState
  | SetType string string
  | SetWorkerName string string
  | SetParentId string string
  | SetResult string TaskResult
  | Drain
  | DrainCompleted "string option"
  | ConsoleLog string
  | UpdateJobRequest nat string TaskAgentJobRequest
  | CallbackInvoked "string option"

text \<open>
  Modelled from the spec: the feedback channel is an interface here
  (\<^verbatim>\<open>cm.IFeedbackChannel\<close>); its implementation is not among the sources. The spec
  says of it that \<^verbatim>\<open>drain(callback)\<close> completes via the callback with an aggregate
  error or none, and that \<^verbatim>\<open>updateJobRequest\<close> completes via its callback with an
  error or none. A channel is given by the completions it delivers: for the one call
  of \<^verbatim>\<open>drain\<close>, each with the time at which it arrives, and for every call of
  \<^verbatim>\<open>updateJobRequest\<close>. A channel that keeps the contract delivers exactly one
  completion to each call; the model also runs the code against one that does not.
\<close>

record channel =
  drain_completions :: "(string option \<times> nat) list"
  update_completions :: "string option list"

text \<open>The last argument of the four status methods is the date each of them makes.\<close>

definition setTaskResult :: "string \<Rightarrow> string \<Rightarrow> TaskResult \<Rightarrow> nat \<Rightarrow> event list" where
  "setTaskResult ident name r now =
     [SetCurrentOperation ident (''Completed '' @ name),
      SetState ident Completed,
      SetFinishTime ident now,
      SetResult ident r]"

definition setJobInProgress :: "JobContext \<Rightarrow> nat \<Rightarrow> event list" where
  "setJobInProgress jc now =
     [SetCurrentOperation (jobId (job jc)) ''Starting'',
      SetName (jobId (job jc)) (jobName (job jc)),
      SetStartTime (jobId (job jc)) now,
      SetState (jobId (job jc)) InProgress,
      SetType (jobId (job jc)) ''Job'',
      SetWorkerName (jobId (job jc)) (agentName jc)]"

definition registerPendingTask :: "JobContext \<Rightarrow> string \<Rightarrow> string \<Rightarrow> event list" where
  "registerPendingTask jc ident name =
     [SetCurrentOperation ident ''Initializing'',
      SetParentId ident (jobId (job jc)),
      SetName ident name,
      SetState ident Pending,
      SetType ident ''Task'',
      SetWorkerName ident (agentName jc)]"

definition setTaskStarted :: "JobContext \<Rightarrow> string \<Rightarrow> string \<Rightarrow> nat \<Rightarrow> event list" where
  "setTaskStarted jc ident name now =
     [SetCurrentOperation (jobId (job jc)) (''Starting '' @ name),
      SetCurrentOperation ident (''Starting '' @ name),
      SetStartTime ident now,
      SetState ident InProgress]"

text \<open>
  The callback that \<^verbatim>\<open>finishJob\<close> gives to \<^verbatim>\<open>drain\<close>, run once for each
  completion the channel delivers. It assigns to the variable \<^verbatim>\<open>result\<close> of the
  enclosing call, so the value is carried from one run to the next. The completions
  of \<^verbatim>\<open>updateJobRequest\<close> go to the caller's callback.
\<close>

fun drained ::
  "JobContext \<Rightarrow> channel \<Rightarrow> TaskResult \<Rightarrow> (string option \<times> nat) list \<Rightarrow> event list" where
  "drained jc ch r [] = []"
| "drained jc ch r ((err, now) # later) =
     (let r' = (if err \<noteq> None then Failed else r) in
      [DrainCompleted err] @
      (if err \<noteq> None then [ConsoleLog ''Failed to drain queue''] else []) @
      [UpdateJobRequest (poolId jc) (lockToken (job jc))
         \<lparr>request_requestId = requestId (job jc), request_finishTime = now,
          request_result = r'\<rparr>] @
      map CallbackInvoked (update_completions ch) @
      drained jc ch r' later)"

definition finishJob :: "JobContext \<Rightarrow> channel \<Rightarrow> TaskResult \<Rightarrow> nat \<Rightarrow> event list" where
  "finishJob jc ch r now =
     setTaskResult (jobId (job jc)) (jobName (job jc)) r now @ [Drain] @
     drained jc ch r (drain_completions ch)"

text \<open>Readings of a list of events.\<close>

fun is_callback :: "event \<Rightarrow> bool" where
  "is_callback (CallbackInvoked _) = True"
| "is_callback _ = False"

fun is_update :: "event \<Rightarrow> bool" where
  "is_update (UpdateJobRequest _ _ _) = True"
| "is_update _ = False"

fun is_drain_completed :: "event \<Rightarrow> bool" where
  "is_drain_completed (DrainCompleted _) = True"
| "is_drain_completed _ = False"

text \<open>The results that the job-request updates among the events carry, in order.\<close>

fun update_results :: "event list \<Rightarrow> TaskResult list" where
  "update_results [] = []"
| "update_results (UpdateJobRequest _ _ rq # es) = request_result rq # update_results es"
| "update_results (_ # es) = update_results es"

text \<open>The results set on the timeline record \<open>ident\<close>, in order; the last one stands.\<close>

fun results_set :: "string \<Rightarrow> event list \<Rightarrow> TaskResult list" where
  "results_set ident [] = []"
| "results_set ident (SetResult i r # es) =
     (if i = ident then r # results_set ident es else results_set ident es)"
| "results_set ident (_ # es) = results_set ident es"

section \<open>Readings and sample values used in the statements\<close>

text \<open>
  The lines \<^verbatim>\<open>_write\<close> builds for its writers from the lines of one message, the
  first of them stamped with the date numbered \<open>k\<close>.
\<close>

fun persisted :: "runtime \<Rightarrow> string option \<Rightarrow> nat \<Rightarrow> string list \<Rightarrow> string list" where
  "persisted rt tag k [] = []"
| "persisted rt tag k (l # ls) = log_line rt tag k l # persisted rt tag (Suc k) ls"

text \<open>Whether \<^verbatim>\<open>typeof\<close> of a value is \<^verbatim>\<open>'string'\<close>.\<close>

fun is_string :: "jsval \<Rightarrow> bool" where
  "is_string (JString _) = True"
| "is_string _ = False"

text \<open>A POSIX host whose dates print as T0, T1, ...\<close>

definition posix :: runtime where
  "posix = \<lparr>EOL = [CHR 0x0A], toISOString = (\<lambda>k. ''T'' @ Number_toString k)\<rparr>"

text \<open>
  The two writers the agent context is built with: the console writer at Status and
  the file writer, here at Info.
\<close>

definition agent_writers :: "IDiagnosticWriter list" where
  "agent_writers =
     [\<lparr>level = Status, received = [], ended = 0\<rparr>, \<lparr>level = Info, received = [], ended = 0\<rparr>]"

text \<open>A fresh logger under the work folder \<^verbatim>\<open>/work\<close>, in a process that just started.\<close>

definition logger0 :: "PagingLogger \<times> world" where
  "logger0 =
     PagingLogger_new ''/work/_logs''
       \<lparr>jobInfo = ''job'', recordId = ''rec'', meta_pagesId = None, meta_logPath = None\<rparr>
       ''id'' ''now_1.log'' world0"

text \<open>What a run of the logger announced and what two of its page files hold.\<close>

definition pages_seen ::
  "string \<Rightarrow> string \<Rightarrow> fs_error + PagingLogger \<times> world \<Rightarrow> (nat list \<times> nat option \<times> nat option) option" where
  "pages_seen p q res =
     (case res of
        Inl e \<Rightarrow> None
      | Inr (lg, w) \<Rightarrow> Some (page_numbers w, line_count w p, line_count w q))"

text \<open>One more call on the logger a run has left, when the run did not throw.\<close>

definition then_write ::
  "string \<Rightarrow> fs_error + PagingLogger \<times> world \<Rightarrow> fs_error + PagingLogger \<times> world" where
  "then_write line res = (case res of Inl e \<Rightarrow> Inl e | Inr s \<Rightarrow> PagingLogger_write line s)"

text \<open>The error a call threw, \<open>None\<close> when it returned.\<close>

definition thrown :: "fs_error + PagingLogger \<times> world \<Rightarrow> fs_error option" where
  "thrown res = (case res of Inl e \<Rightarrow> Some e | Inr s \<Rightarrow> None)"

definition then_end ::
  "fs_error + PagingLogger \<times> world \<Rightarrow> fs_error + PagingLogger \<times> world" where
  "then_end res = (case res of Inl e \<Rightarrow> Inl e | Inr s \<Rightarrow> PagingLogger_end s)"

text \<open>
  A job, and a channel that keeps the contract: its drain fails at time 9 and its
  update of the job request succeeds.
\<close>

definition job0 :: JobContext where
  "job0 = \<lparr>job = \<lparr>jobId = ''j1'', jobName = ''Build'', requestId = 7, lockToken = ''tok''\<rparr>,
           poolId = 1, agentName = ''agent''\<rparr>"

definition failing_drain :: channel where
  "failing_drain = \<lparr>drain_completions = [(Some ''lost'', 9)], update_completions = [None]\<rparr>"

section \<open>The descriptor table\<close>

lemma free_candidate:
  "filter (\<lambda>n. n \<notin> set used) [0 ..< Suc (length used)] = n # ns \<Longrightarrow> n \<notin> set used"
proof -
  assume "filter (\<lambda>n. n \<notin> set used) [0 ..< Suc (length used)] = n # ns"
  then have "n \<in> set (filter (\<lambda>n. n \<notin> set used) [0 ..< Suc (length used)])"
    by (simp del: upt_Suc)
  then show ?thesis by (simp del: upt_Suc)
qed

lemma some_candidate: "filter (\<lambda>n. n \<notin> set used) [0 ..< Suc (length used)] \<noteq> []"
proof
  assume "filter (\<lambda>n. n \<notin> set used) [0 ..< Suc (length used)] = []"
  then have "\<forall>n \<in> set [0 ..< Suc (length used)]. n \<in> set used"
    by (simp only: filter_empty_conv) blast
  then have "{0 ..< Suc (length used)} \<subseteq> set used"
    by (auto simp del: upt_Suc)
  then have "card {0 ..< Suc (length used)} \<le> card (set used)"
    by (intro card_mono) auto
  moreover have "card (set used) \<le> length used" by (rule card_length)
  ultimately show False by simp
qed

lemma lowest_free_fresh: "lowest_free used \<notin> set used"
proof (cases "filter (\<lambda>n. n \<notin> set used) [0 ..< Suc (length used)]")
  case Nil
  with some_candidate show ?thesis by blast
next
  case (Cons n ns)
  with free_candidate [OF Cons] show ?thesis by (simp add: lowest_free_def del: upt_Suc)
qed

lemma lowest_free_nonzero: "0 \<in> set used \<Longrightarrow> lowest_free used \<noteq> 0"
  using lowest_free_fresh [of used] by metis

lemma closeSync_open:
  "is_open d w \<Longrightarrow> closeSync d w = Inr (w\<lparr>fds := filter (\<lambda>e. fst e \<noteq> d) (fds w)\<rparr>)"
  by (auto simp: closeSync_def is_open_def map_of_eq_None_iff split: option.splits)

lemma closeSync_closed: "\<not> is_open d w \<Longrightarrow> closeSync d w = Inl (EBADF ''close'' d)"
  by (auto simp: closeSync_def is_open_def map_of_eq_None_iff split: option.splits)

lemma writeSync_closed: "\<not> is_open d w \<Longrightarrow> writeSync d line w = Inl (EBADF ''write'' d)"
  by (auto simp: writeSync_def is_open_def map_of_eq_None_iff split: option.splits)

lemma writeSync_open:
  "is_open d w \<Longrightarrow> \<exists>w'. writeSync d line w = Inr w' \<and> fds w' = fds w \<and> emitted w' = emitted w"
  by (auto simp: writeSync_def is_open_def map_of_eq_None_iff split: option.splits)

lemma openSync_props:
  assumes "is_open 0 w" and "openSync p w = (d, w')"
  shows "d \<noteq> 0" and "is_open d w'" and "is_open 0 w'" and "emitted w' = emitted w"
    and "\<not> is_open d w"
  using assms lowest_free_nonzero [of "map fst (fds w)"] lowest_free_fresh [of "map fst (fds w)"]
  by (auto simp: openSync_def is_open_def Let_def)

section \<open>Pages of the logger\<close>

lemma endPage_open:
  assumes "fd lg = Some d" and "d \<noteq> 0" and "is_open d w"
  shows "endPage (lg, w) =
           Inr (lg\<lparr>created := Some False\<rparr>,
                w\<lparr>fds := filter (\<lambda>e. fst e \<noteq> d) (fds w),
                  emitted := emitted w @
                    [\<lparr>logInfo = metadata lg, pagePath = pageFilePath lg,
                      pageNumber = pageCount lg\<rparr>]\<rparr>)"
  using assms by (simp add: endPage_def truthy_fd_def closeSync_open)

lemma endPage_closed:
  assumes "fd lg = Some d" and "d \<noteq> 0" and "\<not> is_open d w"
  shows "endPage (lg, w) = Inl (EBADF ''close'' d)"
  using assms by (simp add: endPage_def truthy_fd_def closeSync_closed)

lemma endPage_unset: "fd lg = None \<Longrightarrow> endPage (lg, w) = Inr (lg, w)"
  by (simp add: endPage_def)

lemma newPage_after_endPage:
  assumes e: "endPage (lg, w) = Inr (lg1, w1)" and z: "is_open 0 w1"
  shows "\<exists>lg' w'. newPage (lg, w) = Inr (lg', w') \<and> active (lg', w')
           \<and> pageCount lg' = Suc (pageCount lg1) \<and> lineCount lg' = 0
           \<and> emitted w' = emitted w1"
proof -
  obtain d w' where o: "openSync (path_join (pageFolder lg1)
      (pagesId lg1 @ ''_'' @ Number_toString (Suc (pageCount lg1)) @ ''.page'')) w1 = (d, w')"
    by (cases "openSync (path_join (pageFolder lg1)
      (pagesId lg1 @ ''_'' @ Number_toString (Suc (pageCount lg1)) @ ''.page'')) w1")
  from openSync_props [OF z o] have p: "d \<noteq> 0" "is_open d w'" "is_open 0 w'" "emitted w' = emitted w1"
    by simp_all
  have pos: "0 < PAGE_SIZE" by (simp add: PAGE_SIZE_def)
  show ?thesis
    using e o p pos by (simp add: newPage_def Let_def active_def)
qed

lemma newPage_active:
  assumes a: "fd lg = Some d" "d \<noteq> 0" "is_open d w" "is_open 0 w"
  shows "\<exists>lg' w'. newPage (lg, w) = Inr (lg', w') \<and> active (lg', w')
           \<and> pageCount lg' = Suc (pageCount lg) \<and> lineCount lg' = 0
           \<and> page_numbers w' = page_numbers w @ [pageCount lg]"
proof -
  let ?w1 = "w\<lparr>fds := filter (\<lambda>e. fst e \<noteq> d) (fds w),
                  emitted := emitted w @
                    [\<lparr>logInfo = metadata lg, pagePath = pageFilePath lg,
                      pageNumber = pageCount lg\<rparr>]\<rparr>"
  have e: "endPage (lg, w) = Inr (lg\<lparr>created := Some False\<rparr>, ?w1)"
    using a by (simp add: endPage_open)
  have z: "is_open 0 ?w1" using a by (auto simp: is_open_def)
  from newPage_after_endPage [OF e z] show ?thesis
    by (auto simp: page_numbers_def)
qed

lemma newPage_unset:
  assumes "fd lg = None" and "is_open 0 w"
  shows "\<exists>lg' w'. newPage (lg, w) = Inr (lg', w') \<and> active (lg', w')
           \<and> pageCount lg' = Suc (pageCount lg) \<and> lineCount lg' = 0
           \<and> page_numbers w' = page_numbers w"
proof -
  have e: "endPage (lg, w) = Inr (lg, w)" using assms by (simp add: endPage_unset)
  from newPage_after_endPage [OF e assms(2)] show ?thesis
    by (auto simp: page_numbers_def)
qed

lemma write_active:
  assumes a: "active (lg, w)"
  shows "\<exists>lg' w'. PagingLogger_write line (lg, w) = Inr (lg', w') \<and> active (lg', w')
           \<and> (if Suc (lineCount lg) < PAGE_SIZE
                then pageCount lg' = pageCount lg \<and> lineCount lg' = Suc (lineCount lg)
                     \<and> page_numbers w' = page_numbers w
                else pageCount lg' = Suc (pageCount lg) \<and> lineCount lg' = 0
                     \<and> page_numbers w' = page_numbers w @ [pageCount lg])"
proof -
  from a obtain d where d: "fd lg = Some d" "d \<noteq> 0" "is_open d w" "is_open 0 w"
    and lc: "lineCount lg < PAGE_SIZE"
    by (auto simp: active_def split: option.splits)
  from writeSync_open [OF d(3), of line] obtain w1 where
    w1: "writeSync d line w = Inr w1" "fds w1 = fds w" "emitted w1 = emitted w" by blast
  have o1: "is_open d w1" "is_open 0 w1" using d w1 by (simp_all add: is_open_def)
  show ?thesis
  proof (cases "Suc (lineCount lg) < PAGE_SIZE")
    case True
    then show ?thesis
      using d w1 o1 by (simp add: PagingLogger_write_def truthy_fd_def active_def page_numbers_def)
  next
    case False
    let ?lg1 = "lg\<lparr>lineCount := Suc (lineCount lg)\<rparr>"
    have "fd ?lg1 = Some d" using d by simp
    from newPage_active [OF this d(2) o1] obtain lg' w' where
      n: "newPage (?lg1, w1) = Inr (lg', w')" "active (lg', w')"
         "pageCount lg' = Suc (pageCount ?lg1)" "lineCount lg' = 0"
         "page_numbers w' = page_numbers w1 @ [pageCount ?lg1]" by blast
    have "PagingLogger_write line (lg, w) = Inr (lg', w')"
      using False d w1 n(1) by (simp add: PagingLogger_write_def truthy_fd_def)
    then show ?thesis using False n w1 by (simp add: page_numbers_def)
  qed
qed


lemma writes_active:
  assumes "active (lg, w)"
  shows "\<exists>lg' w'. writes ls (lg, w) = Inr (lg', w') \<and> active (lg', w')
           \<and> pageCount lg' = pageCount lg + (lineCount lg + length ls) div PAGE_SIZE
           \<and> lineCount lg' = (lineCount lg + length ls) mod PAGE_SIZE
           \<and> page_numbers w' = page_numbers w @ [pageCount lg ..< pageCount lg']"
  using assms
proof (induction ls arbitrary: lg w)
  case Nil
  then have "lineCount lg < PAGE_SIZE" by (auto simp: active_def split: option.splits)
  with Nil show ?case by simp
next
  case (Cons l ls)
  from Cons.prems have lc: "lineCount lg < PAGE_SIZE"
    by (auto simp: active_def split: option.splits)
  from write_active [OF Cons.prems, of l] obtain lg1 w1 where
    w: "PagingLogger_write l (lg, w) = Inr (lg1, w1)" "active (lg1, w1)"
    and c: "if Suc (lineCount lg) < PAGE_SIZE
            then pageCount lg1 = pageCount lg \<and> lineCount lg1 = Suc (lineCount lg)
                 \<and> page_numbers w1 = page_numbers w
            else pageCount lg1 = Suc (pageCount lg) \<and> lineCount lg1 = 0
                 \<and> page_numbers w1 = page_numbers w @ [pageCount lg]"
    by blast
  from Cons.IH [OF w(2)] obtain lg' w' where
    r: "writes ls (lg1, w1) = Inr (lg', w')" "active (lg', w')"
       "pageCount lg' = pageCount lg1 + (lineCount lg1 + length ls) div PAGE_SIZE"
       "lineCount lg' = (lineCount lg1 + length ls) mod PAGE_SIZE"
       "page_numbers w' = page_numbers w1 @ [pageCount lg1 ..< pageCount lg']"
    by blast
  have run: "writes (l # ls) (lg, w) = Inr (lg', w')" using w r by simp
  show ?case
  proof (cases "Suc (lineCount lg) < PAGE_SIZE")
    case True
    with c r run show ?thesis by simp
  next
    case False
    with lc have full: "Suc (lineCount lg) = PAGE_SIZE" by simp
    from False c have c': "pageCount lg1 = Suc (pageCount lg)" "lineCount lg1 = 0"
      "page_numbers w1 = page_numbers w @ [pageCount lg]" by simp_all
    have eq: "lineCount lg + length (l # ls) = PAGE_SIZE + length ls" using full by simp
    have d: "(lineCount lg + length (l # ls)) div PAGE_SIZE = Suc (length ls div PAGE_SIZE)"
      unfolding eq using full by (simp add: div_add_self1)
    have m: "(lineCount lg + length (l # ls)) mod PAGE_SIZE = length ls mod PAGE_SIZE"
      unfolding eq by simp
    have pc: "pageCount lg' = pageCount lg + (lineCount lg + length (l # ls)) div PAGE_SIZE"
      using r(3) c' d by simp
    have lc': "lineCount lg' = (lineCount lg + length (l # ls)) mod PAGE_SIZE"
      using r(4) c' m by simp
    have "pageCount lg < pageCount lg'" using pc d by simp
    then have "[pageCount lg ..< pageCount lg'] = pageCount lg # [Suc (pageCount lg) ..< pageCount lg']"
      by (simp add: upt_conv_Cons)
    then have pn: "page_numbers w' = page_numbers w @ [pageCount lg ..< pageCount lg']"
      using r(5) c' by simp
    from run r(2) pc lc' pn show ?thesis by blast
  qed
qed

lemma first_write:
  assumes "fd lg = None" and "is_open 0 w"
  shows "\<exists>lg' w'. PagingLogger_write line (lg, w) = Inr (lg', w') \<and> active (lg', w')
           \<and> pageCount lg' = Suc (pageCount lg) \<and> lineCount lg' = 1
           \<and> page_numbers w' = page_numbers w"
proof -
  let ?md = "(metadata lg)\<lparr>meta_pagesId := Some (pagesId lg), meta_logPath := Some (logPath lg)\<rparr>"
  let ?lg0 = "lg\<lparr>metadata := ?md\<rparr>"
  let ?w0 = "writeFileSync (logPath lg) (Doc ?md) w"
  have f: "fd ?lg0 = None" using assms by simp
  have z: "is_open 0 ?w0" using assms by (simp add: writeFileSync_def is_open_def)
  from newPage_unset [OF f z] obtain lg1 w1 where
    n: "newPage (?lg0, ?w0) = Inr (lg1, w1)" "active (lg1, w1)"
       "pageCount lg1 = Suc (pageCount ?lg0)" "lineCount lg1 = 0"
       "page_numbers w1 = page_numbers ?w0" by blast
  have cr: "create (lg, w) = Inr (lg1\<lparr>created := Some True\<rparr>, w1)"
    using n(1) by (simp add: create_def Let_def)
  from n(2) obtain d where d: "fd lg1 = Some d" "d \<noteq> 0" "is_open d w1" "is_open 0 w1"
    by (auto simp: active_def split: option.splits)
  from writeSync_open [OF d(3), of line] obtain w2 where
    w2: "writeSync d line w1 = Inr w2" "fds w2 = fds w1" "emitted w2 = emitted w1" by blast
  have big: "\<not> 1 \<ge> PAGE_SIZE" by (simp add: PAGE_SIZE_def)
  have res: "PagingLogger_write line (lg, w) =
               Inr (lg1\<lparr>created := Some True, lineCount := Suc 0\<rparr>, w2)"
    using assms(1) cr d w2 n(4) big by (simp add: PagingLogger_write_def truthy_fd_def)
  have act: "active (lg1\<lparr>created := Some True, lineCount := Suc 0\<rparr>, w2)"
    using d w2 big by (simp add: active_def is_open_def)
  have pn: "page_numbers w2 = page_numbers w"
    using n(5) w2 by (simp add: page_numbers_def writeFileSync_def)
  from res act pn n(3) show ?thesis by simp
qed

lemma writes_fresh:
  assumes "fd lg = None" and "pageCount lg = 0" and "is_open 0 w" and "ls \<noteq> []"
  shows "\<exists>lg' w'. writes ls (lg, w) = Inr (lg', w') \<and> active (lg', w')
           \<and> pageCount lg' = Suc (length ls div PAGE_SIZE)
           \<and> lineCount lg' = length ls mod PAGE_SIZE
           \<and> page_numbers w' = page_numbers w @ [1 ..< Suc (length ls div PAGE_SIZE)]"
proof -
  from assms(4) obtain l ls' where ls: "ls = l # ls'" by (cases ls) auto
  from first_write [OF assms(1,3), of l] obtain lg1 w1 where
    f: "PagingLogger_write l (lg, w) = Inr (lg1, w1)" "active (lg1, w1)"
       "pageCount lg1 = Suc (pageCount lg)" "lineCount lg1 = 1"
       "page_numbers w1 = page_numbers w" by blast
  from writes_active [OF f(2), of ls'] obtain lg' w' where
    r: "writes ls' (lg1, w1) = Inr (lg', w')" "active (lg', w')"
       "pageCount lg' = pageCount lg1 + (lineCount lg1 + length ls') div PAGE_SIZE"
       "lineCount lg' = (lineCount lg1 + length ls') mod PAGE_SIZE"
       "page_numbers w' = page_numbers w1 @ [pageCount lg1 ..< pageCount lg']" by blast
  have "writes ls (lg, w) = Inr (lg', w')" using ls f(1) r(1) by simp
  moreover have "pageCount lg' = Suc (length ls div PAGE_SIZE)"
    using r(3) f(3,4) assms(2) ls by simp
  moreover have "lineCount lg' = length ls mod PAGE_SIZE" using r(4) f(4) ls by simp
  moreover have "page_numbers w' = page_numbers w @ [1 ..< Suc (length ls div PAGE_SIZE)]"
    using r(5) f(3,5) assms(2) \<open>pageCount lg' = Suc (length ls div PAGE_SIZE)\<close> by simp
  ultimately show ?thesis using r(2) by blast
qed

lemma end_active:
  assumes "active (lg, w)"
  shows "\<exists>lg' w' d. PagingLogger_end (lg, w) = Inr (lg', w') \<and> fd lg' = Some d \<and> d \<noteq> 0
           \<and> \<not> is_open d w' \<and> pageCount lg' = pageCount lg \<and> lineCount lg' = lineCount lg
           \<and> page_numbers w' = page_numbers w @ [pageCount lg]"
proof -
  from assms obtain d where d: "fd lg = Some d" "d \<noteq> 0" "is_open d w"
    by (auto simp: active_def split: option.splits)
  show ?thesis
    using d by (auto simp: PagingLogger_end_def endPage_open is_open_def page_numbers_def)
qed

text \<open>
  The pages of a stream: after \<open>N > 0\<close> writes to a fresh logger and \<^verbatim>\<open>end()\<close>,
  the sequence numbers announced are \<open>1, ..., N div PAGE_SIZE + 1\<close>, the logger's
  line counter stands at \<open>N mod PAGE_SIZE\<close>, and its descriptor field is still set
  although the descriptor is closed.
\<close>

lemma pages_after_end:
  assumes "fd lg = None" and "pageCount lg = 0" and "is_open 0 w" and "ls \<noteq> []"
  shows "\<exists>lg' w' d. writes_then_end ls (lg, w) = Inr (lg', w')
           \<and> fd lg' = Some d \<and> d \<noteq> 0 \<and> \<not> is_open d w'
           \<and> lineCount lg' = length ls mod PAGE_SIZE
           \<and> page_numbers w' = page_numbers w @ [1 ..< Suc (Suc (length ls div PAGE_SIZE))]"
proof -
  from writes_fresh [OF assms] obtain lg1 w1 where
    r: "writes ls (lg, w) = Inr (lg1, w1)" "active (lg1, w1)"
       "pageCount lg1 = Suc (length ls div PAGE_SIZE)"
       "lineCount lg1 = length ls mod PAGE_SIZE"
       "page_numbers w1 = page_numbers w @ [1 ..< Suc (length ls div PAGE_SIZE)]" by blast
  from end_active [OF r(2)] obtain lg' w' d where
    e: "PagingLogger_end (lg1, w1) = Inr (lg', w')" "fd lg' = Some d" "d \<noteq> 0"
       "\<not> is_open d w'" "pageCount lg' = pageCount lg1" "lineCount lg' = lineCount lg1"
       "page_numbers w' = page_numbers w1 @ [pageCount lg1]" by blast
  have "writes_then_end ls (lg, w) = Inr (lg', w')"
    using r(1) e(1) by (simp add: writes_then_end_def)
  moreover have "page_numbers w' = page_numbers w @ [1 ..< Suc (Suc (length ls div PAGE_SIZE))]"
    using e(7) r(3,5) by simp
  ultimately show ?thesis using e(2,3,4,6) r(4) by auto
qed

section \<open>Properties of the paging logger\<close>

text \<open>
  C6. A logger that received no write before \<^verbatim>\<open>end()\<close>: the call returns without
  throwing and leaves the logger and the world as the constructor made them. No file
  was written (neither the metadata sidecar nor a page), no descriptor was opened and
  no \<^verbatim>\<open>pageComplete\<close> event was emitted; the constructor itself only makes the
  pages folder.
\<close>

theorem end_without_write_is_noop:
  "PagingLogger_end (PagingLogger_new logFolder md uuid logName w) =
     Inr (PagingLogger_new logFolder md uuid logName w)
   \<and> files (snd (PagingLogger_new logFolder md uuid logName w)) = files w
   \<and> fds (snd (PagingLogger_new logFolder md uuid logName w)) = fds w
   \<and> emitted (snd (PagingLogger_new logFolder md uuid logName w)) = emitted w"
  by (simp add: PagingLogger_end_def endPage_def PagingLogger_new_def)

text \<open>
  C10, as amended. \<^verbatim>\<open>end()\<close> is not idempotent once a line was written. After
  one or more writes to a fresh logger and \<^verbatim>\<open>end()\<close>, the field \<^verbatim>\<open>_fd\<close> still
  holds the descriptor of the last page and tests true, while that descriptor is
  closed. A second \<^verbatim>\<open>end()\<close> therefore enters the branch of \<^verbatim>\<open>endPage\<close> again
  and calls \<^verbatim>\<open>closeSync\<close> on the closed descriptor. A later \<^verbatim>\<open>write\<close> skips the
  lazy creation and calls \<^verbatim>\<open>writeSync\<close> on the closed descriptor; it fails there,
  before \<^verbatim>\<open>newPage\<close>, and so does not come to the branch of \<^verbatim>\<open>endPage\<close>. Both
  calls end in the error of a descriptor that is not open; neither is a no-op.
\<close>

theorem end_not_idempotent:
  assumes "is_open 0 w" and "ls \<noteq> []"
  shows "\<exists>lg' w' d.
           writes_then_end ls (PagingLogger_new logFolder md uuid logName w) = Inr (lg', w')
           \<and> fd lg' = Some d \<and> truthy_fd (fd lg') \<and> \<not> is_open d w'
           \<and> PagingLogger_end (lg', w') = Inl (EBADF ''close'' d)
           \<and> (\<forall>line. PagingLogger_write line (lg', w') = Inl (EBADF ''write'' d))"
proof -
  obtain lg0 w0 where n: "PagingLogger_new logFolder md uuid logName w = (lg0, w0)"
    by (cases "PagingLogger_new logFolder md uuid logName w")
  then have f: "fd lg0 = None" "pageCount lg0 = 0" "is_open 0 w0"
    using assms(1) by (auto simp: PagingLogger_new_def is_open_def)
  from pages_after_end [OF f assms(2)] obtain lg' w' d where
    r: "writes_then_end ls (lg0, w0) = Inr (lg', w')" "fd lg' = Some d" "d \<noteq> 0"
       "\<not> is_open d w'" by blast
  have t: "truthy_fd (fd lg')" using r(2,3) by (simp add: truthy_fd_def)
  have e: "PagingLogger_end (lg', w') = Inl (EBADF ''close'' d)"
    using r(2,3,4) by (simp add: PagingLogger_end_def endPage_closed)
  have "PagingLogger_write line (lg', w') = Inl (EBADF ''write'' d)" for line
    using r(2,4) t by (simp add: PagingLogger_write_def writeSync_closed)
  with n r(1,2,4) t e show ?thesis by auto
qed

theorem end_not_idempotent_witness:
  "is_open 0 world0 \<and> [''a''] \<noteq> []
   \<and> (\<exists>lg' w' d.
         writes_then_end [''a''] logger0 = Inr (lg', w')
         \<and> fd lg' = Some d \<and> truthy_fd (fd lg') \<and> \<not> is_open d w'
         \<and> PagingLogger_end (lg', w') = Inl (EBADF ''close'' d)
         \<and> (\<forall>line. PagingLogger_write line (lg', w') = Inl (EBADF ''write'' d)))"
proof -
  have o: "is_open 0 world0" by (simp add: is_open_def world0_def)
  have l: "[''a''] \<noteq> []" by simp
  from end_not_idempotent [OF o l] o show ?thesis unfolding logger0_def by simp
qed

text \<open>
  C10 as first stated has a later \<^verbatim>\<open>write\<close> come to the close-and-notify branch
  again. It does not. One write and \<^verbatim>\<open>end()\<close> on a fresh logger announce page 1
  with its one line and leave descriptor 3 closed. A second \<^verbatim>\<open>end()\<close> fails in
  \<^verbatim>\<open>closeSync\<close>, the first call of the branch. A write fails in \<^verbatim>\<open>writeSync\<close>,
  the call that comes before \<^verbatim>\<open>newPage\<close> in \<^verbatim>\<open>write\<close>: no \<^verbatim>\<open>closeSync\<close> is
  tried and nothing is announced.
\<close>

theorem write_after_end_fails_before_close_branch:
  "pages_seen ''/work/_logs/pages/id_1.page'' ''/work/_logs/pages/id_2.page''
     (writes_then_end [''a''] logger0) = Some ([1], Some 1, None)
   \<and> thrown (then_end (writes_then_end [''a''] logger0)) = Some (EBADF ''close'' 3)
   \<and> thrown (then_write ''b'' (writes_then_end [''a''] logger0)) = Some (EBADF ''write'' 3)
   \<and> thrown (then_write ''b'' (writes_then_end [''a''] logger0)) \<noteq> Some (EBADF ''close'' 3)"
  by code_simp

text \<open>
  C1, at a full page. Twenty-five writes to a fresh logger fill page 1; the
  twenty-fifth write rotates at once, so page 2 is opened with nothing to hold, and
  \<^verbatim>\<open>end()\<close> closes and announces it. Two pages are announced, numbered 1 and 2,
  holding 25 lines and no line, where the count \<open>\<lceil>N/P\<rceil>\<close> is one page of 25 lines.
\<close>

theorem full_page_then_end_announces_empty_page:
  "pages_seen ''/work/_logs/pages/id_1.page'' ''/work/_logs/pages/id_2.page''
     (writes_then_end (replicate PAGE_SIZE ''x'') logger0) = Some ([1, 2], Some 25, Some 0)"
  by code_simp

section \<open>Properties of the diagnostic context\<close>





text \<open>The loop over the lines of a message, in closed form.\<close>

lemma fold_write_line:
  "fold (write_line rt lvl tag) ls ctx =
     ctx\<lparr>dates := dates ctx + length ls,
         messages := messages ctx @ map (\<lambda>l. tag_prefix tag @ strip_line_ends l) ls,
         writers := map (fold (deliver lvl) (persisted rt tag (dates ctx) ls)) (writers ctx)\<rparr>"
proof (induction ls arbitrary: ctx)
  case Nil
  then show ?case by (simp add: map_idI)
next
  case (Cons l ls)
  have "fold (write_line rt lvl tag) (l # ls) ctx =
          fold (write_line rt lvl tag) ls (write_line rt lvl tag l ctx)" by simp
  also have "\<dots> = ctx\<lparr>dates := dates ctx + length (l # ls),
         messages := messages ctx @ map (\<lambda>l. tag_prefix tag @ strip_line_ends l) (l # ls),
         writers := map (fold (deliver lvl) (persisted rt tag (dates ctx) (l # ls))) (writers ctx)\<rparr>"
    unfolding Cons.IH by (simp add: write_line_def)
  finally show ?case .
qed

lemma Context_write_string:
  "Context_write rt lvl tag (JString s) ctx =
     (None, fold (write_line rt lvl tag) (String_split (EOL rt) s) ctx)"
  by (simp add: Context_write_def)



lemma write_keeps_flag: "hasErrors (snd (Context_write rt lvl tag m ctx)) = hasErrors ctx"
  by (cases m) (simp_all add: Context_write_def fold_write_line Let_def split: sum.splits)

lemma banner_keeps_flag: "hasErrors (snd (forEach_banner rt b ls ctx)) = hasErrors ctx"
proof (induction ls arbitrary: ctx)
  case Nil
  then show ?case by simp
next
  case (Cons l ls)
  obtain e c where w: "Context_write rt Info None (JString b) ctx = (e, c)"
    by (cases "Context_write rt Info None (JString b) ctx")
  have "hasErrors c = hasErrors ctx"
    using write_keeps_flag [of rt Info None "JString b" ctx] w by simp
  then show ?case using w Cons.IH by (cases e) simp_all
qed

lemma do_call_keeps_flag: "hasErrors ctx \<Longrightarrow> hasErrors (snd (do_call rt c ctx))"
  by (cases c)
    (simp_all add: Context_output_def Context_error_def Context_warning_def Context_info_def
      Context_verbose_def Context_status_def Context_heading_def Context_section_def
      Context_end_def write_keeps_flag banner_keeps_flag)

lemma do_calls_keep_flag: "hasErrors ctx \<Longrightarrow> hasErrors (do_calls rt cs ctx)"
  by (induction cs arbitrary: ctx) (simp_all add: do_call_keeps_flag)

lemma do_calls_append: "do_calls rt (as @ bs) ctx = do_calls rt bs (do_calls rt as ctx)"
  by (induction as arbitrary: ctx) simp_all

text \<open>
  C5. In any sequence of calls of the public methods that holds a call of
  \<^verbatim>\<open>error\<close>, whatever comes before it and after it and whatever the arguments
  are, the flag \<^verbatim>\<open>hasErrors\<close> is true at the end: \<^verbatim>\<open>error\<close> sets it before it
  writes, and no method clears it.
\<close>

theorem hasErrors_sticky:
  "hasErrors (do_calls rt (before @ LogError m # after) ctx)"
proof -
  have "hasErrors (snd (do_call rt (LogError m) (do_calls rt before ctx)))"
    by (simp add: Context_error_def write_keeps_flag)
  then show ?thesis by (simp add: do_calls_append do_calls_keep_flag)
qed

text \<open>
  A value that is not a string and that \<^verbatim>\<open>JSON.stringify\<close> can render: the call
  returns without throwing, two lines go to \<^verbatim>\<open>console.error\<close>, and nothing else
  of the context changes, so no writer is handed anything and no event is emitted.
\<close>

lemma non_string_discarded:
  assumes "\<not> is_string m" and "\<not> circular m"
  shows "Context_write rt lvl tag m ctx =
           (None, ctx\<lparr>console := console ctx @
              [[CString (''non-string write: '' @ Number_toString (level_num lvl)),
                (case tag of None \<Rightarrow> CNull | Some t \<Rightarrow> CString t)],
               [if m = JUndefined then CUndefined else CJson m]]\<rparr>)"
  using assms by (cases m) (simp_all add: Context_write_def JSON_stringify_def)

text \<open>
  C8, at an object that contains itself. \<^verbatim>\<open>info(o)\<close> with \<^verbatim>\<open>o.self = o\<close>: the
  first notice is printed, then \<^verbatim>\<open>JSON.stringify\<close> throws inside \<^verbatim>\<open>_write\<close>,
  which has no handler, and the TypeError reaches the caller.
\<close>

theorem circular_argument_throws:
  "Context_info rt (JObject [(''self'', JCyclic)]) ctx =
     (Some (TypeError ''Converting circular structure to JSON''),
      ctx\<lparr>console := console ctx @ [[CString (''non-string write: '' @ Number_toString 4), CNull]]\<rparr>)"
  by (simp add: Context_info_def Context_write_def JSON_stringify_def)

text \<open>
  The events of \<^verbatim>\<open>heading\<close>: the lines of the banner are emitted once for every
  writer at Status or above, so not at all when there is none, and never with a throw.
\<close>

lemma write_string_messages:
  "messages (snd (Context_write rt lvl None (JString s) ctx)) =
     messages ctx @ map strip_line_ends (String_split (EOL rt) s)"
  by (simp add: Context_write_string fold_write_line tag_prefix_def)

lemma banner_messages:
  "fst (forEach_banner rt b ls ctx) = None \<and>
   messages (snd (forEach_banner rt b ls ctx)) =
     messages ctx @
     concat (replicate (length (filter (\<lambda>l. level_num l \<ge> level_num Status) ls))
       (map strip_line_ends (String_split (EOL rt) b)))"
proof (induction ls arbitrary: ctx)
  case Nil
  then show ?case by simp
next
  case (Cons l ls)
  show ?case
  proof (cases "level_num l \<ge> level_num Status")
    case True
    obtain c where w: "Context_write rt Info None (JString b) ctx = (None, c)"
      by (simp add: Context_write_string)
    have m: "messages c = messages ctx @ map strip_line_ends (String_split (EOL rt) b)"
      using write_string_messages [of rt Info b ctx] w by simp
    show ?thesis using True w m Cons.IH [of c] by simp
  next
    case False
    then show ?thesis using Cons.IH [of ctx] by simp
  qed
qed

lemma heading_messages:
  "messages (snd (Context_heading rt m ctx)) =
     messages ctx @
     concat (replicate (length (filter (\<lambda>wr. level_num (level wr) \<ge> level_num Status) (writers ctx)))
       (map strip_line_ends (String_split (EOL rt) (delim rt @ m @ delim rt))))"
  by (simp add: Context_heading_def banner_messages filter_map o_def)

lemma section_messages:
  "messages (snd (Context_section rt m ctx)) =
     messages ctx @
     concat (replicate (length (filter (\<lambda>wr. level_num (level wr) \<ge> level_num Status) (writers ctx)))
       (map strip_line_ends
          (String_split (EOL rt) ('' '' @ EOL rt @ ''+++++++'' @ m @ '' '' @ EOL rt))))"
  by (simp add: Context_section_def banner_messages filter_map o_def)

text \<open>
  C7, at the two writers of the agent context. Both are at Status or above, so the
  loop of \<^verbatim>\<open>heading\<close> calls \<^verbatim>\<open>_write\<close> in both of its turns: the banner goes
  through the leveled path twice, and the file writer is handed it twice.
\<close>

theorem heading_runs_once_for_each_accepting_writer:
  "Context_heading rt m (Context_new agent_writers) =
     Context_write rt Info None (JString (delim rt @ m @ delim rt))
       (snd (Context_write rt Info None (JString (delim rt @ m @ delim rt))
          (Context_new agent_writers)))
   \<and> map snd (received (writers (snd (Context_heading posix ''m'' (Context_new agent_writers))) ! 1)) =
     [''T0: '' @ replicate 70 (CHR ''-'') @ [CHR 0x0A],
      ''T1: m'' @ replicate 70 (CHR ''-'') @ [CHR 0x0A],
      ''T2: '' @ [CHR 0x0A],
      ''T3: '' @ replicate 70 (CHR ''-'') @ [CHR 0x0A],
      ''T4: m'' @ replicate 70 (CHR ''-'') @ [CHR 0x0A],
      ''T5: '' @ [CHR 0x0A]]"
proof -
  have "Context_heading rt m (Context_new agent_writers) =
     Context_write rt Info None (JString (delim rt @ m @ delim rt))
       (snd (Context_write rt Info None (JString (delim rt @ m @ delim rt))
          (Context_new agent_writers)))"
    by (simp add: Context_heading_def Context_new_def agent_writers_def Context_write_string)
  moreover have "map snd (received (writers (snd (Context_heading posix ''m'' (Context_new agent_writers))) ! 1)) =
     [''T0: '' @ replicate 70 (CHR ''-'') @ [CHR 0x0A],
      ''T1: m'' @ replicate 70 (CHR ''-'') @ [CHR 0x0A],
      ''T2: '' @ [CHR 0x0A],
      ''T3: '' @ replicate 70 (CHR ''-'') @ [CHR 0x0A],
      ''T4: m'' @ replicate 70 (CHR ''-'') @ [CHR 0x0A],
      ''T5: '' @ [CHR 0x0A]]"
    by code_simp
  ultimately show ?thesis by simp
qed

section \<open>Properties of the job context\<close>

lemma results_set_callbacks: "results_set i (map CallbackInvoked es) = []"
  by (induction es) simp_all

lemma update_results_callbacks: "update_results (map CallbackInvoked es) = []"
  by (induction es) simp_all

text \<open>
  The code itself does not count: with any channel, the caller's callback runs once
  for every completion of the update within every completion of the drain.
\<close>

lemma filter_callbacks_map: "filter is_callback (map CallbackInvoked es) = map CallbackInvoked es"
  by (induction es) simp_all

lemma drained_callbacks:
  "length (filter is_callback (drained jc ch r cs)) = length cs * length (update_completions ch)"
  by (induction cs arbitrary: r) (auto simp: filter_callbacks_map Let_def)

lemma finishJob_callbacks:
  "length (filter is_callback (finishJob jc ch r now)) =
     length (drain_completions ch) * length (update_completions ch)"
  by (simp add: finishJob_def setTaskResult_def drained_callbacks)

text \<open>
  C2. With a channel that keeps its contract (one completion of the drain, with error
  \<open>err\<close> or none, and one completion of the update), \<^verbatim>\<open>finishJob\<close> with any
  result \<open>r\<close>: the caller's callback is invoked exactly once; no job-request update
  is sent before the drain has completed and exactly one is sent in all; and the
  result that update carries is Failed when the drain reported an error, whatever \<open>r\<close>
  is, and \<open>r\<close> when it reported none.
\<close>

theorem finishJob_callback_once_after_drain:
  assumes "drain_completions ch = [(err, t)]" and "update_completions ch = [e]"
  shows "filter is_callback (finishJob jc ch r now) = [CallbackInvoked e]
       \<and> filter is_update (takeWhile (\<lambda>x. \<not> is_drain_completed x) (finishJob jc ch r now)) = []
       \<and> length (filter is_update (finishJob jc ch r now)) = 1
       \<and> update_results (finishJob jc ch r now) = [if err \<noteq> None then Failed else r]"
  using assms by (simp add: finishJob_def setTaskResult_def)

theorem finishJob_callback_once_after_drain_witness:
  "drain_completions failing_drain = [(Some ''lost'', 9)]
   \<and> update_completions failing_drain = [None]
   \<and> filter is_callback (finishJob job0 failing_drain Succeeded 5) = [CallbackInvoked None]
   \<and> length (filter is_update (finishJob job0 failing_drain Succeeded 5)) = 1
   \<and> update_results (finishJob job0 failing_drain Succeeded 5) = [Failed]"
proof -
  have d: "drain_completions failing_drain = [(Some ''lost'', 9)]"
    and u: "update_completions failing_drain = [None]"
    by (simp_all add: failing_drain_def)
  from finishJob_callback_once_after_drain [OF d u, of job0 Succeeded 5] d u
  show ?thesis by simp
qed

text \<open>
  C9. When the drain reports an error, only the job-request update carries Failed.
  The result of the job's own timeline record is set once, to the \<open>r\<close> the caller
  passed: the calls of \<^verbatim>\<open>setTaskResult\<close> are all that precedes the drain, and no
  later call sets the record's result again.
\<close>

theorem timeline_keeps_result_on_drain_error:
  assumes "drain_completions ch = [(Some msg, t)]"
  shows "results_set (jobId (job jc)) (finishJob jc ch r now) = [r]
       \<and> takeWhile (\<lambda>x. x \<noteq> Drain) (finishJob jc ch r now) =
           setTaskResult (jobId (job jc)) (jobName (job jc)) r now
       \<and> update_results (finishJob jc ch r now) = [Failed]"
  using assms
  by (simp add: finishJob_def setTaskResult_def results_set_callbacks update_results_callbacks)

theorem timeline_keeps_result_on_drain_error_witness:
  "drain_completions failing_drain = [(Some ''lost'', 9)]
   \<and> results_set ''j1'' (finishJob job0 failing_drain Succeeded 5) = [Succeeded]
   \<and> update_results (finishJob job0 failing_drain Succeeded 5) = [Failed]"
proof -
  have d: "drain_completions failing_drain = [(Some ''lost'', 9)]"
    by (simp add: failing_drain_def)
  from timeline_keeps_result_on_drain_error [OF d, of job0 Succeeded 5] d
  show ?thesis by (simp add: job0_def)
qed

end
